theory Spec2Isabelle
  imports Complex_Main "HOL-Library.Word"
begin

section \<open>JavaScript values\<close>

text \<open>
  A JavaScript string is a sequence of 16-bit code units. \<open>lit\<close> turns an ASCII
  literal of the source into such a sequence.
\<close>

type_synonym jsstring = "16 word list"

definition lit :: "string \<Rightarrow> jsstring" where
  "lit s = map of_char s"

text \<open>
  The values \<open>JSON.parse\<close> produces, together with \<open>undefined\<close> (what reading an
  absent property gives). An object is the list of its own properties. A number is
  the value of the double; \<open>NaN\<close> and the infinities are not JSON.
\<close>

datatype jsval =
    JUndefined
  | JNull
  | JBool bool
  | JNum real
  | JStr jsstring
  | JArr "jsval list"
  | JObj "(jsstring \<times> jsval) list"

text \<open>\<open>ToBoolean\<close>, as applied by \<open>!userMessage\<close>.\<close>

fun truthy :: "jsval \<Rightarrow> bool" where
  "truthy JUndefined = False"
| "truthy JNull = False"
| "truthy (JBool b) = b"
| "truthy (JNum x) = (x \<noteq> 0)"
| "truthy (JStr s) = (s \<noteq> [])"
| "truthy (JArr xs) = True"
| "truthy (JObj fs) = True"

text \<open>
  Reading the member \<open>k\<close> of \<open>v\<close> (\<open>v.k\<close> or \<open>v[0]\<close>). \<open>None\<close> is the \<open>TypeError\<close>
  raised when \<open>v\<close> is \<open>undefined\<close> or \<open>null\<close>. The source reads the members
  \<open>message\<close>, \<open>choices\<close>, \<open>0\<close> and \<open>content\<close>; none of them is inherited from a
  prototype, so an object that lacks the key, a number and a boolean give
  \<open>undefined\<close>. Index \<open>0\<close> of an array is its first element and of a string the
  string of its first code unit.
\<close>

fun getMember :: "jsval \<Rightarrow> jsstring \<Rightarrow> jsval option" where
  "getMember JUndefined k = None"
| "getMember JNull k = None"
| "getMember (JBool b) k = Some JUndefined"
| "getMember (JNum x) k = Some JUndefined"
| "getMember (JStr s) k =
     (if k = lit ''0'' \<and> s \<noteq> [] then Some (JStr [hd s]) else Some JUndefined)"
| "getMember (JArr xs) k =
     (if k = lit ''0'' \<and> xs \<noteq> [] then Some (hd xs) else Some JUndefined)"
| "getMember (JObj fs) k =
     (case map_of fs k of None \<Rightarrow> Some JUndefined | Some v \<Rightarrow> Some v)"

text \<open>
  \<open>String.prototype.trim\<close>: strips the white space and line terminator code units
  of ECMAScript from both ends.
\<close>

definition isWhiteSpace :: "16 word \<Rightarrow> bool" where
  "isWhiteSpace c \<longleftrightarrow>
     c \<in> set [0x0009, 0x000A, 0x000B, 0x000C, 0x000D, 0x0020, 0x00A0, 0x1680,
              0x2000, 0x2001, 0x2002, 0x2003, 0x2004, 0x2005, 0x2006, 0x2007,
              0x2008, 0x2009, 0x200A, 0x2028, 0x2029, 0x202F, 0x205F, 0x3000,
              0xFEFF]"

definition trim :: "jsstring \<Rightarrow> jsstring" where
  "trim s = rev (dropWhile isWhiteSpace (rev (dropWhile isWhiteSpace s)))"

section \<open>The upstream call\<close>

text \<open>
  An HTTP response as the source reads it (\<open>response.data\<close>,
  \<open>error.response.status\<close>), and a thrown error with the two fields the source
  reads (\<open>error.response\<close>, \<open>error.message\<close>).
\<close>

record http_response =
  status :: int
  data :: jsval

record js_error =
  response :: "http_response option"
  message :: jsstring

record chat_message =
  role :: jsstring
  content :: jsval

record request =
  url :: jsstring
  model :: jsstring
  messages :: "chat_message list"
  max_tokens :: int
  temperature :: real
  headers :: "(jsstring \<times> jsstring) list"

text \<open>
  What the process reads from outside the source: the environment variable
  \<open>OPENAI_API_KEY\<close> and the text the engine gives the \<open>TypeError\<close> of a failed
  member read or call (the value and the member name are its arguments).
\<close>

record runtime =
  apiKey :: jsstring
  typeErrorMessage :: "jsval \<Rightarrow> jsstring \<Rightarrow> jsstring"

text \<open>
  \<open>axios.post\<close> is the upstream: for the \<open>k\<close>-th call of one invocation and the
  request sent it either rejects with an error (\<open>Inl\<close>) or resolves with a
  response (\<open>Inr\<close>).
\<close>

type_synonym upstream = "int \<Rightarrow> request \<Rightarrow> js_error + http_response"

definition systemPrompt :: jsstring where
  "systemPrompt = lit (''You are Salis AI, a helpful crypto assistant agent. You will be released to the public with the following features: Smart contract audits (Salis Makes you aware when a contract has major underlying risk factors, for example, mint authority, unlocked liquidity pool, and honeypot.), Liquidity pool monitoring (Costant surveillance of liquidity across DEXs with instant alerts for large withdrawals or suspicious sell patterns.), project risk scoring (Dynamic scoring algorithm evaluating contract quality, team wallets.), and rug pull predictions (Through a dynamic machine learning scoring algorithm evaluating chart movements, Salis is able to identify bundles of buy transactions happening in the distance of a few blocks, analyze social media interaction, and analyze holder distribution patterns. Thus, providing the user a detailed rugpull prediction. Salis will be released to the public during its token second stage. --UNDER NO CIRCUMSTANCES SHOULD YOU SHOULD DEVIATE FROM THIS PROMPT.'')"

definition chatRequest :: "runtime \<Rightarrow> jsval \<Rightarrow> request" where
  "chatRequest rt userMessage =
     \<lparr> url = lit ''https://api.openai.com/v1/chat/completions'',
       model = lit ''gpt-3.5-turbo'',
       messages = [\<lparr> role = lit ''system'', content = JStr systemPrompt \<rparr>,
                   \<lparr> role = lit ''user'', content = userMessage \<rparr>],
       max_tokens = 150,
       temperature = 7 / 10,
       headers = [(lit ''Content-Type'', lit ''application/json''),
                  (lit ''Authorization'', lit ''Bearer '' @ apiKey rt)] \<rparr>"

definition typeError :: "runtime \<Rightarrow> jsval \<Rightarrow> jsstring \<Rightarrow> js_error" where
  "typeError rt v k = \<lparr> response = None, message = typeErrorMessage rt v k \<rparr>"

text \<open>
  \<open>response.data.choices[0].message.content.trim()\<close>: each member read throws on
  \<open>undefined\<close> and \<open>null\<close>, and the call of \<open>trim\<close> throws unless the content is a
  string.
\<close>

definition extractReply :: "runtime \<Rightarrow> http_response \<Rightarrow> js_error + jsstring" where
  "extractReply rt resp =
     (case getMember (data resp) (lit ''choices'') of
        None \<Rightarrow> Inl (typeError rt (data resp) (lit ''choices''))
      | Some choices \<Rightarrow>
     (case getMember choices (lit ''0'') of
        None \<Rightarrow> Inl (typeError rt choices (lit ''0''))
      | Some choice \<Rightarrow>
     (case getMember choice (lit ''message'') of
        None \<Rightarrow> Inl (typeError rt choice (lit ''message''))
      | Some msg \<Rightarrow>
     (case getMember msg (lit ''content'') of
        None \<Rightarrow> Inl (typeError rt msg (lit ''content''))
      | Some c \<Rightarrow>
     (case c of
        JStr s \<Rightarrow> Inr (trim s)
      | _ \<Rightarrow> Inl (typeError rt c (lit ''trim'')))))))"

text \<open>The body of the \<open>try\<close> block of attempt \<open>attempt\<close>.\<close>

definition tryBody :: "runtime \<Rightarrow> upstream \<Rightarrow> jsval \<Rightarrow> int \<Rightarrow> js_error + jsstring" where
  "tryBody rt post userMessage attempt =
     (case post attempt (chatRequest rt userMessage) of
        Inl error \<Rightarrow> Inl error
      | Inr resp \<Rightarrow> extractReply rt resp)"

text \<open>\<open>error.response && error.response.status === 429\<close>\<close>

definition rateLimited :: "js_error \<Rightarrow> bool" where
  "rateLimited error =
     (case response error of None \<Rightarrow> False | Some r \<Rightarrow> status r = 429)"

section \<open>callGPTWithRetry\<close>

text \<open>
  What an invocation does to the outside, in order: an upstream call, the warning
  on the console (attempt, retries, delay), a timer wait of the given delay, and
  the error log of the handler.
\<close>

datatype event =
    Call request
  | Warn int int int
  | Sleep int
  | LogError jsval

text \<open>
  How an invocation ends: the \<open>return\<close> of the reply, the \<open>throw error\<close> of the
  \<open>catch\<close> block, or the \<open>throw\<close> after the loop.
\<close>

datatype exit = Returned jsstring | Thrown js_error | Exhausted

text \<open>
  The \<open>for\<close> loop from the test \<open>attempt <= retries\<close> on. \<open>retries\<close>, \<open>attempt\<close>
  and \<open>delay\<close> are numbers holding integers (the handler passes the defaults 3 and
  1000), modelled as \<open>int\<close>: incrementing and doubling are exact on doubles as long
  as the counter stays below \<open>2 ^ 53\<close> and the delay stays finite.
\<close>

function retryLoop ::
  "runtime \<Rightarrow> upstream \<Rightarrow> jsval \<Rightarrow> int \<Rightarrow> int \<Rightarrow> int \<Rightarrow> exit \<times> event list" where
  "retryLoop rt post userMessage retries attempt delay =
     (if attempt \<le> retries then
        (case tryBody rt post userMessage attempt of
           Inr reply \<Rightarrow> (Returned reply, [Call (chatRequest rt userMessage)])
         | Inl error \<Rightarrow>
             if rateLimited error \<and> attempt < retries then
               (case retryLoop rt post userMessage retries (attempt + 1) (delay * 2) of
                  (r, tr) \<Rightarrow>
                    (r, Call (chatRequest rt userMessage) # Warn attempt retries delay
                          # Sleep delay # tr))
             else (Thrown error, [Call (chatRequest rt userMessage)]))
      else (Exhausted, []))"
  by pat_completeness auto
termination
  by (relation "measure (\<lambda>(rt, post, userMessage, retries, attempt, delay).
        nat (retries + 1 - attempt))") auto

definition callGPTWithRetry ::
  "runtime \<Rightarrow> upstream \<Rightarrow> jsval \<Rightarrow> int \<Rightarrow> int \<Rightarrow> exit \<times> event list" where
  "callGPTWithRetry rt post userMessage retries delay =
     retryLoop rt post userMessage retries 1 delay"

text \<open>The waits and the number of upstream calls of a trace.\<close>

fun waits :: "event list \<Rightarrow> int list" where
  "waits [] = []"
| "waits (Sleep d # tr) = d # waits tr"
| "waits (e # tr) = waits tr"

fun calls :: "event list \<Rightarrow> nat" where
  "calls [] = 0"
| "calls (Call q # tr) = Suc (calls tr)"
| "calls (e # tr) = calls tr"

text \<open>
  The trace of \<open>k\<close> consecutive iterations that take the retry branch, the first
  at attempt \<open>a\<close> with delay \<open>d\<close>.
\<close>

fun backoffs :: "request \<Rightarrow> int \<Rightarrow> int \<Rightarrow> int \<Rightarrow> nat \<Rightarrow> event list" where
  "backoffs q retries a d 0 = []"
| "backoffs q retries a d (Suc k) =
     Call q # Warn a retries d # Sleep d # backoffs q retries (a + 1) (d * 2) k"

section \<open>The retry loop as a state machine\<close>

text \<open>
  The same loop cut at its two \<open>await\<close>s. An invocation is at the loop test, or
  suspended on the upstream call, or suspended on the timer, or it has ended. Its
  state is its local variables \<open>attempt\<close> and \<open>delay\<close> and what it has done so far.
\<close>

datatype control = AtLoopTest | AwaitingPost | AwaitingTimer | Finished exit

record call_state =
  control :: control
  attemptNo :: int
  currentDelay :: int
  trace :: "event list"

definition initial :: "int \<Rightarrow> call_state" where
  "initial d = \<lparr> control = AtLoopTest, attemptNo = 1, currentDelay = d, trace = [] \<rparr>"

definition step :: "runtime \<Rightarrow> upstream \<Rightarrow> jsval \<Rightarrow> int \<Rightarrow> call_state \<Rightarrow> call_state" where
  "step rt post userMessage retries s =
     (case control s of
        AtLoopTest \<Rightarrow>
          if attemptNo s \<le> retries then
            s\<lparr> control := AwaitingPost,
               trace := trace s @ [Call (chatRequest rt userMessage)] \<rparr>
          else s\<lparr> control := Finished Exhausted \<rparr>
      | AwaitingPost \<Rightarrow>
          (case tryBody rt post userMessage (attemptNo s) of
             Inr reply \<Rightarrow> s\<lparr> control := Finished (Returned reply) \<rparr>
           | Inl error \<Rightarrow>
               if rateLimited error \<and> attemptNo s < retries then
                 s\<lparr> control := AwaitingTimer,
                    trace := trace s @ [Warn (attemptNo s) retries (currentDelay s),
                                        Sleep (currentDelay s)] \<rparr>
               else s\<lparr> control := Finished (Thrown error) \<rparr>)
      | AwaitingTimer \<Rightarrow>
          s\<lparr> control := AtLoopTest,
             currentDelay := currentDelay s * 2,
             attemptNo := attemptNo s + 1 \<rparr>
      | Finished x \<Rightarrow> s)"

text \<open>
  What holds of the state of an invocation with \<open>retries \<ge> 1\<close> and initial delay
  \<open>d\<close> at each of its steps.
\<close>

definition retryInvariant :: "int \<Rightarrow> int \<Rightarrow> call_state \<Rightarrow> bool" where
  "retryInvariant retries d s \<longleftrightarrow>
     1 \<le> attemptNo s \<and> attemptNo s \<le> retries
   \<and> currentDelay s = d * 2 ^ nat (attemptNo s - 1)
   \<and> int (calls (trace s)) = (if control s = AtLoopTest then attemptNo s - 1 else attemptNo s)
   \<and> (control s = AwaitingTimer \<longrightarrow> attemptNo s < retries)
   \<and> control s \<noteq> Finished Exhausted"

text \<open>An invocation: its own upstream and its arguments.\<close>

record invocation =
  upstreamOf :: upstream
  messageOf :: jsval
  retriesOf :: int
  delayOf :: int

definition stepOf :: "runtime \<Rightarrow> invocation \<Rightarrow> call_state \<Rightarrow> call_state" where
  "stepOf rt i = step rt (upstreamOf i) (messageOf i) (retriesOf i)"

section \<open>Invocations on one event loop, over one store\<close>

text \<open>
  All invocations run in one process and share its store and its console. A call
  of \<open>callGPTWithRetry\<close> creates a fresh frame holding the two variables the
  function assigns: the loop variable \<open>attempt\<close> (declared with \<open>let\<close> inside the
  function) and the parameter \<open>delay\<close>. The function assigns nothing outside its
  frame. Every event goes to the one console, tagged with the frame of the
  invocation it comes from.
\<close>

type_synonym frame = nat

datatype address = Attempt frame | Delay frame

record machine =
  cells :: "address \<Rightarrow> int"
  frames :: nat
  console :: "(frame \<times> event) list"

text \<open>Entering the function: \<open>delay\<close> is bound to the argument and \<open>attempt\<close> to 1.\<close>

definition enter :: "machine \<Rightarrow> int \<Rightarrow> machine" where
  "enter m d =
     m\<lparr> cells := (cells m)(Attempt (frames m) := 1, Delay (frames m) := d),
        frames := Suc (frames m) \<rparr>"

definition emit :: "frame \<Rightarrow> event list \<Rightarrow> machine \<Rightarrow> machine" where
  "emit f es m = m\<lparr> console := console m @ map (Pair f) es \<rparr>"

text \<open>
  One segment (from one \<open>await\<close> to the next) of the invocation \<open>i\<close> whose frame
  is \<open>f\<close>, on the shared machine; the control point belongs to the invocation.
\<close>

definition sharedStep ::
  "runtime \<Rightarrow> invocation \<Rightarrow> frame \<Rightarrow> machine \<times> control \<Rightarrow> machine \<times> control" where
  "sharedStep rt i f mc =
     (case mc of (m, c) \<Rightarrow>
        (case c of
           AtLoopTest \<Rightarrow>
             if cells m (Attempt f) \<le> retriesOf i then
               (emit f [Call (chatRequest rt (messageOf i))] m, AwaitingPost)
             else (m, Finished Exhausted)
         | AwaitingPost \<Rightarrow>
             (case tryBody rt (upstreamOf i) (messageOf i) (cells m (Attempt f)) of
                Inr reply \<Rightarrow> (m, Finished (Returned reply))
              | Inl error \<Rightarrow>
                  if rateLimited error \<and> cells m (Attempt f) < retriesOf i then
                    (emit f [Warn (cells m (Attempt f)) (retriesOf i) (cells m (Delay f)),
                             Sleep (cells m (Delay f))] m,
                     AwaitingTimer)
                  else (m, Finished (Thrown error)))
         | AwaitingTimer \<Rightarrow>
             (m\<lparr> cells := (cells m)(Delay f := cells m (Delay f) * 2,
                                      Attempt f := cells m (Attempt f) + 1) \<rparr>,
              AtLoopTest)
         | Finished x \<Rightarrow> (m, c)))"

text \<open>
  Two invocations \<open>a\<close> and \<open>b\<close> on the machine. \<open>spawn\<close> enters both, one after
  the other; the schedule says which of the two runs its next segment (\<open>True\<close> the
  first).
\<close>

record system =
  shared :: machine
  frameA :: frame
  frameB :: frame
  controlA :: control
  controlB :: control

definition spawn :: "machine \<Rightarrow> invocation \<Rightarrow> invocation \<Rightarrow> system" where
  "spawn m a b =
     \<lparr> shared = enter (enter m (delayOf a)) (delayOf b),
       frameA = frames m,
       frameB = frames (enter m (delayOf a)),
       controlA = AtLoopTest,
       controlB = AtLoopTest \<rparr>"

definition turnA :: "runtime \<Rightarrow> invocation \<Rightarrow> system \<Rightarrow> system" where
  "turnA rt a s =
     (case sharedStep rt a (frameA s) (shared s, controlA s) of
        (m, c) \<Rightarrow> s\<lparr> shared := m, controlA := c \<rparr>)"

definition turnB :: "runtime \<Rightarrow> invocation \<Rightarrow> system \<Rightarrow> system" where
  "turnB rt b s =
     (case sharedStep rt b (frameB s) (shared s, controlB s) of
        (m, c) \<Rightarrow> s\<lparr> shared := m, controlB := c \<rparr>)"

fun runShared :: "runtime \<Rightarrow> invocation \<Rightarrow> invocation \<Rightarrow> bool list \<Rightarrow> system \<Rightarrow> system" where
  "runShared rt a b [] s = s"
| "runShared rt a b (True # sched) s = runShared rt a b sched (turnA rt a s)"
| "runShared rt a b (False # sched) s = runShared rt a b sched (turnB rt b s)"

text \<open>
  What the machine holds of the invocation with frame \<open>f\<close> and control point \<open>c\<close>:
  its two cells and its part of the console.
\<close>

definition eventsOf :: "frame \<Rightarrow> (frame \<times> event) list \<Rightarrow> event list" where
  "eventsOf f out = map snd (filter (\<lambda>p. fst p = f) out)"

definition viewOf :: "frame \<Rightarrow> machine \<Rightarrow> control \<Rightarrow> call_state" where
  "viewOf f m c =
     \<lparr> control = c, attemptNo = cells m (Attempt f), currentDelay = cells m (Delay f),
       trace = eventsOf f (console m) \<rparr>"

definition viewA :: "system \<Rightarrow> call_state" where
  "viewA s = viewOf (frameA s) (shared s) (controlA s)"

definition viewB :: "system \<Rightarrow> call_state" where
  "viewB s = viewOf (frameB s) (shared s) (controlB s)"

text \<open>No event on the console carries the tag of a frame not yet created.\<close>

definition tagsAllocated :: "machine \<Rightarrow> bool" where
  "tagsAllocated m \<longleftrightarrow> list_all (\<lambda>p. fst p < frames m) (console m)"

definition bootMachine :: machine where
  "bootMachine = \<lparr> cells = (\<lambda>x. 0), frames = 0, console = [] \<rparr>"

section \<open>The handler of POST /chat\<close>

record http_reply =
  statusCode :: int
  reply :: jsstring

definition exhaustedError :: js_error where
  "exhaustedError = \<lparr> response = None, message = lit ''Exceeded maximum retry attempts'' \<rparr>"

text \<open>The \<open>catch\<close> block of the handler.\<close>

definition failureReply :: "js_error \<Rightarrow> event list \<Rightarrow> http_reply \<times> event list" where
  "failureReply error tr =
     (\<lparr> statusCode = 500,
        reply = lit ''Sorry, something went wrong: '' @ message error \<rparr>,
      tr @ [LogError (case response error of
                        Some r \<Rightarrow> data r
                      | None \<Rightarrow> JStr (message error))])"

text \<open>
  The handler, given \<open>req.body\<close>. Reading \<open>message\<close> of an \<open>undefined\<close> body throws
  outside the \<open>try\<close> (\<open>Inl\<close>); otherwise the handler answers. It calls
  \<open>callGPTWithRetry\<close> with the default \<open>retries = 3\<close> and \<open>delay = 1000\<close>.
\<close>

definition chatHandler ::
  "runtime \<Rightarrow> upstream \<Rightarrow> jsval \<Rightarrow> js_error + http_reply \<times> event list" where
  "chatHandler rt post body =
     (case getMember body (lit ''message'') of
        None \<Rightarrow> Inl (typeError rt body (lit ''message''))
      | Some userMessage \<Rightarrow>
          if \<not> truthy userMessage then
            Inr (\<lparr> statusCode = 400, reply = lit ''No message provided.'' \<rparr>, [])
          else
            (case callGPTWithRetry rt post userMessage 3 1000 of
               (Returned replyText, tr) \<Rightarrow> Inr (\<lparr> statusCode = 200, reply = replyText \<rparr>, tr)
             | (Thrown error, tr) \<Rightarrow> Inr (failureReply error tr)
             | (Exhausted, tr) \<Rightarrow> Inr (failureReply exhaustedError tr)))"

section \<open>Malformed bodies and example upstreams\<close>

text \<open>
  A success body with no \<open>choices\<close>, with an empty \<open>choices\<close> array, or whose first
  choice has no \<open>content\<close> under \<open>message\<close>.
\<close>

definition malformed :: "jsval \<Rightarrow> bool" where
  "malformed d \<longleftrightarrow>
     (case getMember d (lit ''choices'') of
        Some JUndefined \<Rightarrow> True
      | Some (JArr []) \<Rightarrow> True
      | Some (JArr (choice # rest)) \<Rightarrow>
          (case getMember choice (lit ''message'') of
             None \<Rightarrow> True
           | Some msg \<Rightarrow>
               (case getMember msg (lit ''content'') of
                  None \<Rightarrow> True
                | Some c \<Rightarrow> c = JUndefined))
      | _ \<Rightarrow> False)"

text \<open>Upstreams and values for running the model on concrete inputs.\<close>

definition exampleRuntime :: runtime where
  "exampleRuntime =
     \<lparr> apiKey = lit ''sk-test'',
       typeErrorMessage = (\<lambda>v k. lit ''Cannot read properties of undefined'') \<rparr>"

definition httpError :: "int \<Rightarrow> jsstring \<Rightarrow> js_error" where
  "httpError code text =
     \<lparr> response = Some \<lparr> status = code, data = JNull \<rparr>, message = text \<rparr>"

definition rateLimitError :: js_error where
  "rateLimitError = httpError 429 (lit ''Request failed with status code 429'')"

definition completion :: "jsstring \<Rightarrow> http_response" where
  "completion text =
     \<lparr> status = 200,
       data = JObj [(lit ''choices'',
                JArr [JObj [(lit ''message'', JObj [(lit ''content'', JStr text)])]])] \<rparr>"

definition alwaysSucceeds :: upstream where
  "alwaysSucceeds k q = Inr (completion (lit '' hi there ''))"

definition alwaysRateLimited :: upstream where
  "alwaysRateLimited k q = Inl rateLimitError"

definition rateLimitedUntil :: "int \<Rightarrow> upstream" where
  "rateLimitedUntil n k q =
     (if k < n then Inl rateLimitError else Inr (completion (lit '' hi there '')))"

definition alwaysFails :: upstream where
  "alwaysFails k q = Inl (httpError 500 (lit ''boom''))"

definition emptyChoices :: upstream where
  "emptyChoices k q = Inr \<lparr> status = 200, data = JObj [(lit ''choices'', JArr [])] \<rparr>"

definition rateLimitedThenEmptyChoices :: upstream where
  "rateLimitedThenEmptyChoices k q = (if k < 2 then Inl rateLimitError else emptyChoices k q)"

definition hello :: jsval where
  "hello = JStr (lit ''hello'')"

definition succeeding :: invocation where
  "succeeding =
     \<lparr> upstreamOf = alwaysSucceeds, messageOf = hello, retriesOf = 3, delayOf = 1000 \<rparr>"

definition exhausting :: invocation where
  "exhausting =
     \<lparr> upstreamOf = alwaysRateLimited, messageOf = hello, retriesOf = 3, delayOf = 1000 \<rparr>"

definition exampleSchedule :: "bool list" where
  "exampleSchedule = [True, False, False, True, False, False, False, False, False, False]"

section \<open>Properties of the retry loop\<close>

declare retryLoop.simps [simp del]

lemma waits_append: "waits (xs @ ys) = waits xs @ waits ys"
  by (induction xs rule: waits.induct) simp_all

lemma calls_append: "calls (xs @ ys) = calls xs + calls ys"
  by (induction xs rule: calls.induct) simp_all

lemma waits_backoffs: "waits (backoffs q n a d k) = map (\<lambda>i. d * 2 ^ i) [0..<k]"
proof (induction k arbitrary: a d)
  case 0
  show ?case by simp
next
  case (Suc k)
  have "map (\<lambda>i. d * 2 ^ i) [0..<Suc k] = d # map (\<lambda>i. d * 2 * 2 ^ i) [0..<k]"
    by (simp add: upt_conv_Cons map_Suc_upt [symmetric] del: upt_Suc)
  with Suc show ?case by simp
qed

lemma calls_backoffs: "calls (backoffs q n a d k) = k"
  by (induction k arbitrary: a d) simp_all

lemma retryLoop_success:
  "attempt \<le> retries \<Longrightarrow> tryBody rt post m attempt = Inr v \<Longrightarrow>
   retryLoop rt post m retries attempt d = (Returned v, [Call (chatRequest rt m)])"
  by (subst retryLoop.simps) simp

lemma retryLoop_throw:
  "attempt \<le> retries \<Longrightarrow> tryBody rt post m attempt = Inl e \<Longrightarrow>
   \<not> (rateLimited e \<and> attempt < retries) \<Longrightarrow>
   retryLoop rt post m retries attempt d = (Thrown e, [Call (chatRequest rt m)])"
  by (subst retryLoop.simps) auto

lemma retryLoop_retry:
  "attempt < retries \<Longrightarrow> tryBody rt post m attempt = Inl e \<Longrightarrow> rateLimited e \<Longrightarrow>
   retryLoop rt post m retries attempt d =
     (case retryLoop rt post m retries (attempt + 1) (d * 2) of
        (r, tr) \<Rightarrow> (r, Call (chatRequest rt m) # Warn attempt retries d # Sleep d # tr))"
  by (subst retryLoop.simps) simp

lemma retry_prefix:
  "\<forall>i. a \<le> i \<and> i < a + int k \<longrightarrow> (\<exists>e. tryBody rt post m i = Inl e \<and> rateLimited e) \<Longrightarrow>
   a + int k \<le> retries \<Longrightarrow>
   retryLoop rt post m retries a d =
     (case retryLoop rt post m retries (a + int k) (d * 2 ^ k) of
        (r, tr) \<Rightarrow> (r, backoffs (chatRequest rt m) retries a d k @ tr))"
proof (induction k arbitrary: a d)
  case 0
  show ?case by (simp split: prod.split)
next
  case (Suc k)
  from Suc.prems(1) obtain e where e: "tryBody rt post m a = Inl e" "rateLimited e"
    by force
  have lt: "a < retries" using Suc.prems(2) by simp
  have rest: "\<forall>i. a + 1 \<le> i \<and> i < a + 1 + int k \<longrightarrow>
      (\<exists>e. tryBody rt post m i = Inl e \<and> rateLimited e)"
    using Suc.prems(1) by simp
  have bound: "a + 1 + int k \<le> retries" using Suc.prems(2) by simp
  have idx: "a + 1 + int k = a + int (Suc k)" and pow: "d * 2 * 2 ^ k = d * 2 ^ Suc k"
    by simp_all
  have "retryLoop rt post m retries (a + 1) (d * 2) =
     (case retryLoop rt post m retries (a + 1 + int k) (d * 2 * 2 ^ k) of
        (r, tr) \<Rightarrow> (r, backoffs (chatRequest rt m) retries (a + 1) (d * 2) k @ tr))"
    by (rule Suc.IH [OF rest bound])
  then have "retryLoop rt post m retries (a + 1) (d * 2) =
     (case retryLoop rt post m retries (a + int (Suc k)) (d * 2 ^ Suc k) of
        (r, tr) \<Rightarrow> (r, backoffs (chatRequest rt m) retries (a + 1) (d * 2) k @ tr))"
    by (simp only: idx pow)
  then show ?case
    by (simp only: retryLoop_retry [OF lt e] backoffs.simps append_Cons split: prod.split) simp
qed

lemma retryLoop_not_exhausted:
  "attempt \<le> retries \<Longrightarrow> fst (retryLoop rt post m retries attempt d) \<noteq> Exhausted"
proof (induction rt post m retries attempt d rule: retryLoop.induct)
  case (1 rt post m retries attempt d)
  show ?case
  proof (cases "tryBody rt post m attempt")
    case (Inr v)
    with "1.prems" show ?thesis by (simp add: retryLoop_success)
  next
    case (Inl e)
    show ?thesis
    proof (cases "rateLimited e \<and> attempt < retries")
      case True
      with "1.IH" [OF "1.prems" Inl] have "fst (retryLoop rt post m retries (attempt + 1) (d * 2)) \<noteq> Exhausted"
        by simp
      with True Inl show ?thesis
        by (cases "retryLoop rt post m retries (attempt + 1) (d * 2)")
           (simp add: retryLoop_retry)
    next
      case False
      with "1.prems" Inl show ?thesis by (simp add: retryLoop_throw)
    qed
  qed
qed



lemma tryBody_rejected:
  "post k (chatRequest rt m) = Inl e \<Longrightarrow> tryBody rt post m k = Inl e"
  by (simp add: tryBody_def)

lemma tryBody_resolved:
  "post k (chatRequest rt m) = Inr resp \<Longrightarrow> tryBody rt post m k = extractReply rt resp"
  by (simp add: tryBody_def)

lemma extractReply_content:
  "data resp = JObj fs \<Longrightarrow> map_of fs (lit ''choices'') = Some (JArr (choice # rest)) \<Longrightarrow>
   getMember choice (lit ''message'') = Some msg \<Longrightarrow>
   getMember msg (lit ''content'') = Some (JStr c) \<Longrightarrow>
   extractReply rt resp = Inr (trim c)"
  by (simp add: extractReply_def)


lemma extractReply_malformed:
  assumes "malformed (data resp)"
  shows "\<exists>e. extractReply rt resp = Inl e \<and> response e = None"
proof (cases "getMember (data resp) (lit ''choices'')")
  case None
  with assms show ?thesis by (simp add: malformed_def)
next
  case choices: (Some cs)
  show ?thesis
  proof (cases cs)
    case JUndefined
    with choices show ?thesis by (simp add: extractReply_def typeError_def)
  next
    case (JArr xs)
    show ?thesis
    proof (cases xs)
      case Nil
      with choices JArr show ?thesis by (simp add: extractReply_def typeError_def)
    next
      case (Cons choice rest)
      with assms choices JArr have m:
        "case getMember choice (lit ''message'') of
           None \<Rightarrow> True
         | Some msg \<Rightarrow>
             (case getMember msg (lit ''content'') of
                None \<Rightarrow> True
              | Some c \<Rightarrow> c = JUndefined)"
        by (simp add: malformed_def)
      have first: "getMember cs (lit ''0'') = Some choice"
        using JArr Cons by simp
      show ?thesis
      proof (cases "getMember choice (lit ''message'')")
        case None
        with choices first show ?thesis by (simp add: extractReply_def typeError_def)
      next
        case msg: (Some ms)
        show ?thesis
        proof (cases "getMember ms (lit ''content'')")
          case None
          with choices first msg show ?thesis by (simp add: extractReply_def typeError_def)
        next
          case (Some c)
          with m msg have "c = JUndefined" by simp
          with choices first msg Some show ?thesis
            by (simp add: extractReply_def typeError_def)
        qed
      qed
    qed
  qed (use assms choices in \<open>simp_all add: malformed_def\<close>)
qed


lemma callGPTWithRetry_after_backoffs:
  assumes "1 \<le> k" and "k \<le> retries"
    and "\<forall>i. 1 \<le> i \<and> i < k \<longrightarrow> (\<exists>e. post i (chatRequest rt m) = Inl e \<and> rateLimited e)"
  shows "callGPTWithRetry rt post m retries d =
     (case retryLoop rt post m retries k (d * 2 ^ nat (k - 1)) of
        (r, tr) \<Rightarrow> (r, backoffs (chatRequest rt m) retries 1 d (nat (k - 1)) @ tr))"
proof -
  have idx: "1 + int (nat (k - 1)) = k" using assms(1) by simp
  have pre: "\<forall>i. 1 \<le> i \<and> i < 1 + int (nat (k - 1)) \<longrightarrow>
      (\<exists>e. tryBody rt post m i = Inl e \<and> rateLimited e)"
    unfolding idx using assms(3) by (auto simp: tryBody_def)
  have "retryLoop rt post m retries 1 d =
     (case retryLoop rt post m retries (1 + int (nat (k - 1))) (d * 2 ^ nat (k - 1)) of
        (r, tr) \<Rightarrow> (r, backoffs (chatRequest rt m) retries 1 d (nat (k - 1)) @ tr))"
    by (rule retry_prefix [OF pre]) (use assms(1,2) in simp)
  then show ?thesis unfolding idx callGPTWithRetry_def .
qed

lemma calls_after_backoffs:
  "1 \<le> k \<Longrightarrow> calls (backoffs q n a d (nat (k - 1)) @ [Call q]) = nat k"
proof -
  assume "1 \<le> k"
  then have "Suc (nat (k - 1)) = nat k" by simp
  then show ?thesis by (simp add: calls_append calls_backoffs)
qed

lemma waits_after_backoffs:
  "waits (backoffs q n a d j @ [Call q]) = map (\<lambda>i. d * 2 ^ i) [0..<j]"
  by (simp add: waits_append waits_backoffs)

section \<open>Properties of the state machine\<close>

lemma step_finished: "control s = Finished x \<Longrightarrow> step rt post m retries s = s"
  by (simp add: step_def)

lemma funpow_step_finished:
  "control s = Finished x \<Longrightarrow> (step rt post m retries ^^ n) s = s"
  by (induction n) (simp_all add: step_finished)

lemma invariant_initial: "1 \<le> retries \<Longrightarrow> retryInvariant retries d (initial d)"
  by (simp add: retryInvariant_def initial_def)

lemma invariant_step:
  assumes "retryInvariant retries d s"
  shows "retryInvariant retries d (step rt post m retries s)"
proof (cases "control s")
  case AtLoopTest
  with assms show ?thesis
    by (simp add: retryInvariant_def step_def calls_append)
next
  case AwaitingPost
  with assms show ?thesis
    by (auto simp: retryInvariant_def step_def calls_append split: sum.splits)
next
  case AwaitingTimer
  from assms have a: "1 \<le> attemptNo s" by (simp add: retryInvariant_def)
  then have "nat (attemptNo s + 1 - 1) = Suc (nat (attemptNo s - 1))" by simp
  with assms AwaitingTimer show ?thesis
    by (simp add: retryInvariant_def step_def)
next
  case (Finished x)
  with assms show ?thesis by (simp add: step_finished)
qed

lemma invariant_reachable:
  "1 \<le> retries \<Longrightarrow> retryInvariant retries d ((step rt post m retries ^^ n) (initial d))"
  by (induction n) (simp_all add: invariant_initial invariant_step)

lemma step_retry:
  assumes "control s = AwaitingPost" "tryBody rt post m (attemptNo s) = Inl e"
    "rateLimited e" "attemptNo s < retries"
  shows "control (step rt post m retries s) = AwaitingTimer"
    and "step rt post m retries (step rt post m retries s) =
         s\<lparr> control := AtLoopTest, attemptNo := attemptNo s + 1,
            currentDelay := currentDelay s * 2,
            trace := trace s @ [Warn (attemptNo s) retries (currentDelay s),
                                Sleep (currentDelay s)] \<rparr>"
  using assms by (simp_all add: step_def)

lemma step_throw:
  assumes "control s = AwaitingPost" "tryBody rt post m (attemptNo s) = Inl e"
    "\<not> rateLimited e \<or> attemptNo s = retries"
  shows "step rt post m retries s = s\<lparr> control := Finished (Thrown e) \<rparr>"
  using assms by (auto simp: step_def)

lemma calls_callGPTWithRetry:
  "1 \<le> retries \<Longrightarrow> 0 < calls (snd (callGPTWithRetry rt post m retries d))"
  unfolding callGPTWithRetry_def
  by (subst retryLoop.simps) (simp split: sum.splits prod.splits)


lemma run_reaches_result:
  "control s = AtLoopTest \<Longrightarrow> attemptNo s = a \<Longrightarrow> currentDelay s = d \<Longrightarrow>
   \<exists>n. control ((step rt post m retries ^^ n) s) = Finished (fst (retryLoop rt post m retries a d))
     \<and> trace ((step rt post m retries ^^ n) s) = trace s @ snd (retryLoop rt post m retries a d)"
proof (induction rt post m retries a d arbitrary: s rule: retryLoop.induct)
  case (1 rt post m retries a d)
  let ?f = "step rt post m retries"
  let ?q = "chatRequest rt m"
  show ?case
  proof (cases "a \<le> retries")
    case False
    then have r: "retryLoop rt post m retries a d = (Exhausted, [])"
      by (subst retryLoop.simps) simp
    have "?f s = s\<lparr> control := Finished Exhausted \<rparr>"
      using False "1.prems" by (simp add: step_def)
    then have "control ((?f ^^ 1) s) = Finished Exhausted \<and> trace ((?f ^^ 1) s) = trace s @ []"
      by simp
    then show ?thesis unfolding r fst_conv snd_conv by blast
  next
    case True
    have s1: "?f s = s\<lparr> control := AwaitingPost, trace := trace s @ [Call ?q] \<rparr>"
      using True "1.prems" by (simp add: step_def)
    show ?thesis
    proof (cases "tryBody rt post m a")
      case (Inr v)
      have r: "retryLoop rt post m retries a d = (Returned v, [Call ?q])"
        using True Inr by (rule retryLoop_success)
      have "?f (?f s) = s\<lparr> control := Finished (Returned v), trace := trace s @ [Call ?q] \<rparr>"
        unfolding s1 using Inr "1.prems" by (simp add: step_def)
      then have "control ((?f ^^ 2) s) = Finished (Returned v)
          \<and> trace ((?f ^^ 2) s) = trace s @ [Call ?q]"
        by (simp add: numeral_2_eq_2)
      then show ?thesis unfolding r fst_conv snd_conv by blast
    next
      case (Inl e)
      show ?thesis
      proof (cases "rateLimited e \<and> a < retries")
        case False
        have r: "retryLoop rt post m retries a d = (Thrown e, [Call ?q])"
          using True Inl False by (rule retryLoop_throw)
        have "?f (?f s) = s\<lparr> control := Finished (Thrown e), trace := trace s @ [Call ?q] \<rparr>"
          unfolding s1 using Inl False "1.prems" by (auto simp: step_def)
        then have "control ((?f ^^ 2) s) = Finished (Thrown e)
            \<and> trace ((?f ^^ 2) s) = trace s @ [Call ?q]"
          by (simp add: numeral_2_eq_2)
        then show ?thesis unfolding r fst_conv snd_conv by blast
      next
        case retry: True
        define s3 where "s3 = s\<lparr> control := AtLoopTest, attemptNo := a + 1,
            currentDelay := d * 2,
            trace := trace s @ [Call ?q, Warn a retries d, Sleep d] \<rparr>"
        have s2: "?f (?f s) = s\<lparr> control := AwaitingTimer,
            trace := trace s @ [Call ?q, Warn a retries d, Sleep d] \<rparr>"
          unfolding s1 using Inl retry "1.prems" by (simp add: step_def)
        have "?f (?f (?f s)) = s3"
          unfolding s2 s3_def using "1.prems" by (simp add: step_def)
        then have three: "(?f ^^ 3) s = s3" by (simp add: numeral_3_eq_3)
        have "\<exists>n. control ((?f ^^ n) s3) =
                 Finished (fst (retryLoop rt post m retries (a + 1) (d * 2)))
             \<and> trace ((?f ^^ n) s3) =
                 trace s3 @ snd (retryLoop rt post m retries (a + 1) (d * 2))"
          by (rule "1.IH" [OF True Inl retry]) (simp_all add: s3_def)
        then obtain n where n:
          "control ((?f ^^ n) s3) = Finished (fst (retryLoop rt post m retries (a + 1) (d * 2)))"
          "trace ((?f ^^ n) s3) = trace s3 @ snd (retryLoop rt post m retries (a + 1) (d * 2))"
          by blast
        have r: "retryLoop rt post m retries a d =
            (fst (retryLoop rt post m retries (a + 1) (d * 2)),
             Call ?q # Warn a retries d # Sleep d # snd (retryLoop rt post m retries (a + 1) (d * 2)))"
          using retry Inl by (simp add: retryLoop_retry split: prod.split)
        have "(?f ^^ (n + 3)) s = (?f ^^ n) s3"
          unfolding funpow_add o_apply three ..
        with n have "control ((?f ^^ (n + 3)) s) = Finished (fst (retryLoop rt post m retries a d))
            \<and> trace ((?f ^^ (n + 3)) s) = trace s @ snd (retryLoop rt post m retries a d)"
          unfolding r fst_conv snd_conv by (simp add: s3_def)
        then show ?thesis by blast
      qed
    qed
  qed
qed

lemma callGPTWithRetry_reached:
  "\<exists>n. control ((step rt post m retries ^^ n) (initial d)) =
           Finished (fst (callGPTWithRetry rt post m retries d))
     \<and> trace ((step rt post m retries ^^ n) (initial d)) =
           snd (callGPTWithRetry rt post m retries d)"
  using run_reaches_result [of "initial d" 1 d rt post m retries]
  by (simp add: initial_def callGPTWithRetry_def)

lemma funpow_split: "n \<le> k \<Longrightarrow> (f ^^ k) x = (f ^^ (k - n)) ((f ^^ n) x)"
  using funpow_add [of "k - n" n f] by simp

lemma finished_is_result:
  assumes "control ((step rt post m retries ^^ n) (initial d)) = Finished x"
  shows "callGPTWithRetry rt post m retries d = (x, trace ((step rt post m retries ^^ n) (initial d)))"
proof -
  let ?f = "step rt post m retries"
  from callGPTWithRetry_reached [of rt post m retries d] obtain k where k:
    "control ((?f ^^ k) (initial d)) = Finished (fst (callGPTWithRetry rt post m retries d))"
    "trace ((?f ^^ k) (initial d)) = snd (callGPTWithRetry rt post m retries d)"
    by blast
  have same: "(?f ^^ n) (initial d) = (?f ^^ k) (initial d)"
  proof (cases "n \<le> k")
    case True
    then have "(?f ^^ k) (initial d) = (?f ^^ (k - n)) ((?f ^^ n) (initial d))"
      by (rule funpow_split)
    also have "\<dots> = (?f ^^ n) (initial d)"
      using assms by (rule funpow_step_finished)
    finally show ?thesis by simp
  next
    case False
    then have "(?f ^^ n) (initial d) = (?f ^^ (n - k)) ((?f ^^ k) (initial d))"
      by (intro funpow_split) simp
    also have "\<dots> = (?f ^^ k) (initial d)"
      using k(1) by (rule funpow_step_finished)
    finally show ?thesis .
  qed
  from assms k show ?thesis unfolding same by (simp add: prod_eq_iff)
qed

lemma result_stays:
  "\<exists>n. \<forall>k\<ge>n. control ((step rt post m retries ^^ k) (initial d)) =
                   Finished (fst (callGPTWithRetry rt post m retries d))
              \<and> trace ((step rt post m retries ^^ k) (initial d)) =
                   snd (callGPTWithRetry rt post m retries d)"
proof -
  let ?f = "step rt post m retries"
  from callGPTWithRetry_reached [of rt post m retries d] obtain n where n:
    "control ((?f ^^ n) (initial d)) = Finished (fst (callGPTWithRetry rt post m retries d))
     \<and> trace ((?f ^^ n) (initial d)) = snd (callGPTWithRetry rt post m retries d)"
    by (rule exE)
  have "control ((?f ^^ k) (initial d)) = Finished (fst (callGPTWithRetry rt post m retries d))
      \<and> trace ((?f ^^ k) (initial d)) = snd (callGPTWithRetry rt post m retries d)"
    if "n \<le> k" for k
  proof -
    from that have "(?f ^^ k) (initial d) = (?f ^^ (k - n)) ((?f ^^ n) (initial d))"
      by (rule funpow_split)
    also have "\<dots> = (?f ^^ n) (initial d)"
      using n by (intro funpow_step_finished) (rule conjunct1)
    finally have same: "(?f ^^ k) (initial d) = (?f ^^ n) (initial d)" .
    show ?thesis unfolding same by (rule n)
  qed
  then have "\<forall>k\<ge>n. control ((?f ^^ k) (initial d)) =
                   Finished (fst (callGPTWithRetry rt post m retries d))
              \<and> trace ((?f ^^ k) (initial d)) = snd (callGPTWithRetry rt post m retries d)"
    by blast
  then show ?thesis by (rule exI)
qed

section \<open>Properties of the shared store\<close>

text \<open>
  A segment of the invocation with frame \<open>f\<close> does to its own cells and its own
  part of the console what \<open>step\<close> does to the state of an invocation run alone,
  and it leaves the cells and the console part of every other frame as they were.
\<close>

lemma eventsOf_unallocated: "tagsAllocated m \<Longrightarrow> frames m \<le> f \<Longrightarrow> eventsOf f (console m) = []"
  by (auto simp: tagsAllocated_def eventsOf_def list_all_iff filter_empty_conv)

lemma sharedStep_own:
  "sharedStep rt i f (m, c) = (m', c') \<Longrightarrow> viewOf f m' c' = stepOf rt i (viewOf f m c)"
  by (cases c)
     (auto simp: sharedStep_def stepOf_def step_def viewOf_def emit_def
        eventsOf_def split: sum.splits if_splits)

lemma sharedStep_other:
  "sharedStep rt i f (m, c) = (m', c') \<Longrightarrow> g \<noteq> f \<Longrightarrow> viewOf g m' c2 = viewOf g m c2"
  by (cases c)
     (auto simp: sharedStep_def viewOf_def emit_def
        eventsOf_def split: sum.splits if_splits)

lemma turnA_views:
  assumes "frameA s \<noteq> frameB s"
  shows "viewA (turnA rt a s) = stepOf rt a (viewA s)"
    and "viewB (turnA rt a s) = viewB s"
    and "frameA (turnA rt a s) = frameA s" and "frameB (turnA rt a s) = frameB s"
proof -
  obtain m c where mc: "sharedStep rt a (frameA s) (shared s, controlA s) = (m, c)"
    by (cases "sharedStep rt a (frameA s) (shared s, controlA s)")
  show "viewA (turnA rt a s) = stepOf rt a (viewA s)"
    using sharedStep_own [OF mc] by (simp add: viewA_def turnA_def mc)
  show "viewB (turnA rt a s) = viewB s"
    using sharedStep_other [OF mc, of "frameB s" "controlB s"] assms
    by (simp add: viewB_def turnA_def mc)
  show "frameA (turnA rt a s) = frameA s" and "frameB (turnA rt a s) = frameB s"
    by (simp_all add: turnA_def mc)
qed

lemma turnB_views:
  assumes "frameA s \<noteq> frameB s"
  shows "viewB (turnB rt b s) = stepOf rt b (viewB s)"
    and "viewA (turnB rt b s) = viewA s"
    and "frameA (turnB rt b s) = frameA s" and "frameB (turnB rt b s) = frameB s"
proof -
  obtain m c where mc: "sharedStep rt b (frameB s) (shared s, controlB s) = (m, c)"
    by (cases "sharedStep rt b (frameB s) (shared s, controlB s)")
  show "viewB (turnB rt b s) = stepOf rt b (viewB s)"
    using sharedStep_own [OF mc] by (simp add: viewB_def turnB_def mc)
  show "viewA (turnB rt b s) = viewA s"
    using sharedStep_other [OF mc, of "frameA s" "controlA s"] assms
    by (simp add: viewA_def turnB_def mc)
  show "frameA (turnB rt b s) = frameA s" and "frameB (turnB rt b s) = frameB s"
    by (simp_all add: turnB_def mc)
qed

lemma runShared_views:
  "frameA s \<noteq> frameB s \<Longrightarrow>
   viewA (runShared rt a b sched s) = (stepOf rt a ^^ length (filter id sched)) (viewA s)
   \<and> viewB (runShared rt a b sched s) = (stepOf rt b ^^ length (filter Not sched)) (viewB s)"
proof (induction sched arbitrary: s)
  case Nil
  show ?case by simp
next
  case (Cons x sched)
  show ?case
  proof (cases x)
    case True
    have "frameA (turnA rt a s) \<noteq> frameB (turnA rt a s)"
      using Cons.prems by (simp add: turnA_views)
    from Cons.IH [OF this] show ?thesis
      unfolding turnA_views [OF Cons.prems] using True
      by (simp add: funpow_Suc_right del: funpow.simps)
  next
    case False
    have "frameA (turnB rt b s) \<noteq> frameB (turnB rt b s)"
      using Cons.prems by (simp add: turnB_views)
    from Cons.IH [OF this] show ?thesis
      unfolding turnB_views [OF Cons.prems] using False
      by (simp add: funpow_Suc_right del: funpow.simps)
  qed
qed

lemma spawn_views:
  assumes "tagsAllocated m"
  shows "frameA (spawn m a b) \<noteq> frameB (spawn m a b)"
    and "viewA (spawn m a b) = initial (delayOf a)"
    and "viewB (spawn m a b) = initial (delayOf b)"
proof -
  show "frameA (spawn m a b) \<noteq> frameB (spawn m a b)"
    by (simp add: spawn_def enter_def)
  have "eventsOf (frames m) (console m) = []" and "eventsOf (Suc (frames m)) (console m) = []"
    using assms by (simp_all add: eventsOf_unallocated)
  then show "viewA (spawn m a b) = initial (delayOf a)"
    and "viewB (spawn m a b) = initial (delayOf b)"
    by (simp_all add: viewA_def viewB_def viewOf_def spawn_def enter_def initial_def)
qed

section \<open>The example upstreams\<close>

lemma example_rate_limited: "rateLimited rateLimitError"
  by (simp add: rateLimited_def rateLimitError_def httpError_def)

lemma example_extract:
  "extractReply exampleRuntime (completion (lit '' hi there '')) = Inr (lit ''hi there'')"
  by (simp add: extractReply_def completion_def lit_def trim_def isWhiteSpace_def)

lemma example_tryBody_rate_limited:
  "tryBody rt alwaysRateLimited m k = Inl rateLimitError"
  by (simp add: tryBody_def alwaysRateLimited_def)

lemma example_tryBody_succeeds:
  "tryBody exampleRuntime alwaysSucceeds m k = Inr (lit ''hi there'')"
  by (simp add: tryBody_def alwaysSucceeds_def example_extract)

lemma example_solo_runs:
  "(stepOf exampleRuntime succeeding ^^ length (filter id exampleSchedule)) (initial 1000) =
     \<lparr> control = Finished (Returned (lit ''hi there'')), attemptNo = 1, currentDelay = 1000,
       trace = [Call (chatRequest exampleRuntime hello)] \<rparr>"
  "(stepOf exampleRuntime exhausting ^^ length (filter Not exampleSchedule)) (initial 1000) =
     \<lparr> control = Finished (Thrown rateLimitError), attemptNo = 3, currentDelay = 4000,
       trace = [Call (chatRequest exampleRuntime hello), Warn 1 3 1000, Sleep 1000,
                Call (chatRequest exampleRuntime hello), Warn 2 3 2000, Sleep 2000,
                Call (chatRequest exampleRuntime hello)] \<rparr>"
proof -
  have n: "length (filter id exampleSchedule) = 2" "length (filter Not exampleSchedule) = 8"
    by (simp_all add: exampleSchedule_def)
  show "(stepOf exampleRuntime succeeding ^^ length (filter id exampleSchedule)) (initial 1000) =
     \<lparr> control = Finished (Returned (lit ''hi there'')), attemptNo = 1, currentDelay = 1000,
       trace = [Call (chatRequest exampleRuntime hello)] \<rparr>"
    unfolding n
    by (simp add: eval_nat_numeral stepOf_def succeeding_def step_def
        initial_def example_tryBody_succeeds)
  show "(stepOf exampleRuntime exhausting ^^ length (filter Not exampleSchedule)) (initial 1000) =
     \<lparr> control = Finished (Thrown rateLimitError), attemptNo = 3, currentDelay = 4000,
       trace = [Call (chatRequest exampleRuntime hello), Warn 1 3 1000, Sleep 1000,
                Call (chatRequest exampleRuntime hello), Warn 2 3 2000, Sleep 2000,
                Call (chatRequest exampleRuntime hello)] \<rparr>"
    unfolding n
    by (simp add: eval_nat_numeral stepOf_def exhausting_def step_def
        initial_def example_tryBody_rate_limited example_rate_limited)
qed

text \<open>
  The store can express interference: were the second invocation given the frame
  of the first, its retry would move the attempt counter and the delay of the
  first, which has not run at all.
\<close>

lemma shared_frame_interferes:
  "attemptNo (viewA (runShared exampleRuntime succeeding exhausting [False, False, False]
      ((spawn bootMachine succeeding exhausting)\<lparr> frameB := 0 \<rparr>))) = 2
   \<and> currentDelay (viewA (runShared exampleRuntime succeeding exhausting [False, False, False]
      ((spawn bootMachine succeeding exhausting)\<lparr> frameB := 0 \<rparr>))) = 2000
   \<and> attemptNo ((stepOf exampleRuntime succeeding ^^ 0) (initial 1000)) = 1
   \<and> currentDelay ((stepOf exampleRuntime succeeding ^^ 0) (initial 1000)) = 1000"
proof -
  let ?s0 = "(spawn bootMachine succeeding exhausting)\<lparr> frameB := 0 \<rparr>"
  let ?t = "turnB exampleRuntime exhausting"
  have s0: "frameA ?s0 = 0" "frameB ?s0 = 0" "controlB ?s0 = AtLoopTest"
      "cells (shared ?s0) (Attempt 0) = 1" "cells (shared ?s0) (Delay 0) = 1000"
    by (simp_all add: spawn_def enter_def bootMachine_def succeeding_def)
  have s1: "frameA (?t ?s0) = 0" "frameB (?t ?s0) = 0" "controlB (?t ?s0) = AwaitingPost"
      "cells (shared (?t ?s0)) (Attempt 0) = 1" "cells (shared (?t ?s0)) (Delay 0) = 1000"
    using s0 by (simp_all add: turnB_def sharedStep_def emit_def exhausting_def)
  have s2: "frameA (?t (?t ?s0)) = 0" "frameB (?t (?t ?s0)) = 0"
      "controlB (?t (?t ?s0)) = AwaitingTimer"
      "cells (shared (?t (?t ?s0))) (Attempt 0) = 1"
      "cells (shared (?t (?t ?s0))) (Delay 0) = 1000"
    using s1 by (simp_all add: turnB_def sharedStep_def emit_def exhausting_def
        example_tryBody_rate_limited example_rate_limited)
  have s3: "frameA (?t (?t (?t ?s0))) = 0"
      "cells (shared (?t (?t (?t ?s0)))) (Attempt 0) = 2"
      "cells (shared (?t (?t (?t ?s0)))) (Delay 0) = 2000"
    using s2 by (simp_all add: turnB_def sharedStep_def)
  show ?thesis
    using s3 by (simp add: viewA_def viewOf_def initial_def)
qed

section \<open>Claims on callGPTWithRetry\<close>

text \<open>
  C1. For every \<open>retries = N \<ge> 1\<close> and initial delay \<open>d\<close>, when the upstream rejects
  with a rate-limit error (status 429) on the attempts \<open>1, \<dots>, N - 1\<close> and resolves on
  attempt \<open>N\<close> with a body from which the reply \<open>v\<close> is extracted, \<open>callGPTWithRetry\<close>
  returns \<open>v\<close> after \<open>N\<close> upstream calls and exactly \<open>N - 1\<close> waits, and the waits are
  \<open>d, 2d, 4d, \<dots>\<close>: each retry doubles the delay of the next wait.
\<close>

theorem C1_rate_limited_then_success:
  assumes "1 \<le> N"
    and "\<forall>k. 1 \<le> k \<and> k < N \<longrightarrow> (\<exists>e. post k (chatRequest rt m) = Inl e \<and> rateLimited e)"
    and "post N (chatRequest rt m) = Inr resp"
    and "extractReply rt resp = Inr v"
  shows "callGPTWithRetry rt post m N d =
           (Returned v, backoffs (chatRequest rt m) N 1 d (nat (N - 1)) @ [Call (chatRequest rt m)])
       \<and> waits (snd (callGPTWithRetry rt post m N d)) = map (\<lambda>i. d * 2 ^ i) [0..<nat (N - 1)]
       \<and> length (waits (snd (callGPTWithRetry rt post m N d))) = nat (N - 1)
       \<and> calls (snd (callGPTWithRetry rt post m N d)) = nat N"
proof -
  have last: "retryLoop rt post m N N (d * 2 ^ nat (N - 1)) = (Returned v, [Call (chatRequest rt m)])"
    using assms(3,4) by (simp add: retryLoop_success tryBody_resolved)
  have run: "callGPTWithRetry rt post m N d =
      (Returned v, backoffs (chatRequest rt m) N 1 d (nat (N - 1)) @ [Call (chatRequest rt m)])"
    using callGPTWithRetry_after_backoffs
      [where post = post and rt = rt and m = m and d = d and k = N and retries = N]
      assms(1,2)
    unfolding last by simp
  show ?thesis
    unfolding run snd_conv waits_after_backoffs calls_after_backoffs [OF assms(1)]
    by simp
qed

theorem C1_witness:
  "callGPTWithRetry exampleRuntime (rateLimitedUntil 3) hello 3 1000 =
     (Returned (lit ''hi there''),
      [Call (chatRequest exampleRuntime hello), Warn 1 3 1000, Sleep 1000,
       Call (chatRequest exampleRuntime hello), Warn 2 3 2000, Sleep 2000,
       Call (chatRequest exampleRuntime hello)])
   \<and> waits (snd (callGPTWithRetry exampleRuntime (rateLimitedUntil 3) hello 3 1000)) = [1000, 2000]
   \<and> calls (snd (callGPTWithRetry exampleRuntime (rateLimitedUntil 3) hello 3 1000)) = 3"
proof -
  have h1: "(1::int) \<le> 3" by simp
  have h2: "\<forall>k. 1 \<le> k \<and> k < 3 \<longrightarrow>
      (\<exists>e. rateLimitedUntil 3 k (chatRequest exampleRuntime hello) = Inl e \<and> rateLimited e)"
    by (simp add: rateLimitedUntil_def example_rate_limited)
  have h3: "rateLimitedUntil 3 3 (chatRequest exampleRuntime hello) = Inr (completion (lit '' hi there ''))"
    by (simp add: rateLimitedUntil_def)
  show ?thesis
    using C1_rate_limited_then_success
      [where d = 1000 and post = "rateLimitedUntil 3" and rt = exampleRuntime and m = hello,
       OF h1 h2 h3 example_extract]
    by (simp add: eval_nat_numeral)
qed

text \<open>
  C2. For every \<open>retries = N \<ge> 1\<close>, when the upstream rejects with a rate-limit error
  on every attempt \<open>1, \<dots>, N\<close>, \<open>callGPTWithRetry\<close> throws the error of attempt \<open>N\<close>
  after exactly \<open>N\<close> upstream calls; the last event is that call, so nothing is
  retried after the final attempt.
\<close>

theorem C2_always_rate_limited:
  assumes "1 \<le> N"
    and "\<forall>k. 1 \<le> k \<and> k \<le> N \<longrightarrow> (\<exists>e. post k (chatRequest rt m) = Inl e \<and> rateLimited e)"
    and "post N (chatRequest rt m) = Inl e"
  shows "rateLimited e
       \<and> callGPTWithRetry rt post m N d =
           (Thrown e, backoffs (chatRequest rt m) N 1 d (nat (N - 1)) @ [Call (chatRequest rt m)])
       \<and> calls (snd (callGPTWithRetry rt post m N d)) = nat N
       \<and> waits (snd (callGPTWithRetry rt post m N d)) = map (\<lambda>i. d * 2 ^ i) [0..<nat (N - 1)]"
proof -
  have rl: "rateLimited e" using assms by force
  have before: "\<forall>k. 1 \<le> k \<and> k < N \<longrightarrow> (\<exists>e. post k (chatRequest rt m) = Inl e \<and> rateLimited e)"
    using assms(2) by simp
  have last: "retryLoop rt post m N N (d * 2 ^ nat (N - 1)) = (Thrown e, [Call (chatRequest rt m)])"
    using assms(3) by (simp add: retryLoop_throw tryBody_rejected)
  have run: "callGPTWithRetry rt post m N d =
      (Thrown e, backoffs (chatRequest rt m) N 1 d (nat (N - 1)) @ [Call (chatRequest rt m)])"
    using callGPTWithRetry_after_backoffs
      [where post = post and rt = rt and m = m and d = d and k = N and retries = N]
      assms(1) before
    unfolding last by simp
  show ?thesis
    unfolding run snd_conv waits_after_backoffs calls_after_backoffs [OF assms(1)]
    using rl by simp
qed

theorem C2_witness:
  "callGPTWithRetry exampleRuntime alwaysRateLimited hello 3 1000 =
     (Thrown rateLimitError,
      [Call (chatRequest exampleRuntime hello), Warn 1 3 1000, Sleep 1000,
       Call (chatRequest exampleRuntime hello), Warn 2 3 2000, Sleep 2000,
       Call (chatRequest exampleRuntime hello)])
   \<and> calls (snd (callGPTWithRetry exampleRuntime alwaysRateLimited hello 3 1000)) = 3"
proof -
  have h1: "(1::int) \<le> 3" by simp
  have h2: "\<forall>k. 1 \<le> k \<and> k \<le> 3 \<longrightarrow>
      (\<exists>e. alwaysRateLimited k (chatRequest exampleRuntime hello) = Inl e \<and> rateLimited e)"
    by (simp add: alwaysRateLimited_def example_rate_limited)
  have h3: "alwaysRateLimited 3 (chatRequest exampleRuntime hello) = Inl rateLimitError"
    by (simp add: alwaysRateLimited_def)
  show ?thesis
    using C2_always_rate_limited
      [where d = 1000 and post = alwaysRateLimited and rt = exampleRuntime and m = hello,
       OF h1 h2 h3]
    by (simp add: eval_nat_numeral)
qed

text \<open>
  C3. For every \<open>retries > 1\<close>, when the upstream rejects on attempt 1 with an error
  that is not a rate-limit signal (it has no response, or its status is not 429),
  \<open>callGPTWithRetry\<close> throws that error after exactly one upstream call, with no
  wait and no further attempt.
\<close>

theorem C3_other_failure_not_retried:
  assumes "1 < retries"
    and "post 1 (chatRequest rt m) = Inl e"
    and "response e = None \<or> (\<exists>r. response e = Some r \<and> status r \<noteq> 429)"
  shows "callGPTWithRetry rt post m retries d = (Thrown e, [Call (chatRequest rt m)])
       \<and> calls (snd (callGPTWithRetry rt post m retries d)) = 1
       \<and> waits (snd (callGPTWithRetry rt post m retries d)) = []"
proof -
  have "\<not> rateLimited e" using assms(3) by (auto simp: rateLimited_def)
  with assms(1,2) have "callGPTWithRetry rt post m retries d = (Thrown e, [Call (chatRequest rt m)])"
    by (simp add: callGPTWithRetry_def retryLoop_throw tryBody_rejected)
  then show ?thesis by simp
qed

theorem C3_witness:
  "callGPTWithRetry exampleRuntime alwaysFails hello 3 1000 =
     (Thrown (httpError 500 (lit ''boom'')), [Call (chatRequest exampleRuntime hello)])
   \<and> calls (snd (callGPTWithRetry exampleRuntime alwaysFails hello 3 1000)) = 1
   \<and> waits (snd (callGPTWithRetry exampleRuntime alwaysFails hello 3 1000)) = []"
proof -
  have h1: "(1::int) < 3" by simp
  have h2: "alwaysFails 1 (chatRequest exampleRuntime hello) = Inl (httpError 500 (lit ''boom''))"
    by (simp add: alwaysFails_def)
  have h3: "response (httpError 500 (lit ''boom'')) = None \<or>
      (\<exists>r. response (httpError 500 (lit ''boom'')) = Some r \<and> status r \<noteq> 429)"
    by (simp add: httpError_def)
  show ?thesis
    using C3_other_failure_not_retried
      [where d = 1000 and post = alwaysFails and rt = exampleRuntime and m = hello,
       OF h1 h2 h3] .
qed

text \<open>
  C4. When the upstream resolves on the first attempt and the content of the
  message of its first choice is the string \<open>c\<close>, \<open>callGPTWithRetry\<close> returns
  \<open>trim c\<close> after exactly one upstream call and no wait. This holds for every
  \<open>userMessage\<close>, in particular for every non-empty one, and needs one attempt to
  exist (\<open>retries \<ge> 1\<close>).
\<close>

theorem C4_first_attempt_success:
  assumes "1 \<le> retries"
    and "post 1 (chatRequest rt m) = Inr resp"
    and "data resp = JObj fs"
    and "map_of fs (lit ''choices'') = Some (JArr (choice # rest))"
    and "getMember choice (lit ''message'') = Some msg"
    and "getMember msg (lit ''content'') = Some (JStr c)"
  shows "callGPTWithRetry rt post m retries d = (Returned (trim c), [Call (chatRequest rt m)])
       \<and> calls (snd (callGPTWithRetry rt post m retries d)) = 1
       \<and> waits (snd (callGPTWithRetry rt post m retries d)) = []"
proof -
  have "tryBody rt post m 1 = Inr (trim c)"
    using assms(2-6) by (simp add: tryBody_resolved extractReply_content)
  with assms(1) have "callGPTWithRetry rt post m retries d = (Returned (trim c), [Call (chatRequest rt m)])"
    by (simp add: callGPTWithRetry_def retryLoop_success)
  then show ?thesis by simp
qed

theorem C4_witness:
  "callGPTWithRetry exampleRuntime alwaysSucceeds hello 3 1000 =
     (Returned (lit ''hi there''), [Call (chatRequest exampleRuntime hello)])
   \<and> calls (snd (callGPTWithRetry exampleRuntime alwaysSucceeds hello 3 1000)) = 1
   \<and> waits (snd (callGPTWithRetry exampleRuntime alwaysSucceeds hello 3 1000)) = []"
proof -
  have h1: "(1::int) \<le> 3" by simp
  have h2: "alwaysSucceeds 1 (chatRequest exampleRuntime hello) = Inr (completion (lit '' hi there ''))"
    by (simp add: alwaysSucceeds_def)
  have h3: "data (completion (lit '' hi there '')) =
      JObj [(lit ''choices'',
              JArr [JObj [(lit ''message'', JObj [(lit ''content'', JStr (lit '' hi there ''))])]])]"
    by (simp add: completion_def)
  have h4: "map_of [(lit ''choices'',
              JArr [JObj [(lit ''message'', JObj [(lit ''content'', JStr (lit '' hi there ''))])]])]
            (lit ''choices'') =
      Some (JArr (JObj [(lit ''message'', JObj [(lit ''content'', JStr (lit '' hi there ''))])] # []))"
    by simp
  have h5: "getMember (JObj [(lit ''message'', JObj [(lit ''content'', JStr (lit '' hi there ''))])])
      (lit ''message'') = Some (JObj [(lit ''content'', JStr (lit '' hi there ''))])"
    by simp
  have h6: "getMember (JObj [(lit ''content'', JStr (lit '' hi there ''))]) (lit ''content'') =
      Some (JStr (lit '' hi there ''))"
    by simp
  have t: "trim (lit '' hi there '') = lit ''hi there''"
    by (simp add: lit_def trim_def isWhiteSpace_def)
  show ?thesis
    using C4_first_attempt_success
      [where d = 1000 and post = alwaysSucceeds and rt = exampleRuntime and m = hello,
       OF h1 h2 h3 h4 h5 h6]
    unfolding t .
qed

text \<open>
  C7. When the upstream resolves on attempt \<open>k \<le> retries\<close> (reached through
  rate-limit errors on the attempts before it) with a malformed body, extracting
  the reply throws an error without a response; \<open>callGPTWithRetry\<close> throws it at
  once: attempt \<open>k\<close> is the last upstream call and no wait follows it, also when
  attempts remain.
\<close>

theorem C7_malformed_body_not_retried:
  assumes "1 \<le> k" and "k \<le> retries"
    and "\<forall>i. 1 \<le> i \<and> i < k \<longrightarrow> (\<exists>e. post i (chatRequest rt m) = Inl e \<and> rateLimited e)"
    and "post k (chatRequest rt m) = Inr resp"
    and "malformed (data resp)"
  shows "\<exists>e. extractReply rt resp = Inl e \<and> response e = None \<and> \<not> rateLimited e
           \<and> callGPTWithRetry rt post m retries d =
               (Thrown e, backoffs (chatRequest rt m) retries 1 d (nat (k - 1)) @ [Call (chatRequest rt m)])
           \<and> calls (snd (callGPTWithRetry rt post m retries d)) = nat k
           \<and> waits (snd (callGPTWithRetry rt post m retries d)) = map (\<lambda>i. d * 2 ^ i) [0..<nat (k - 1)]"
proof -
  from extractReply_malformed [OF assms(5)] obtain e
    where e: "extractReply rt resp = Inl e" "response e = None" by blast
  have nrl: "\<not> rateLimited e" using e(2) by (simp add: rateLimited_def)
  have last: "retryLoop rt post m retries k (d * 2 ^ nat (k - 1)) = (Thrown e, [Call (chatRequest rt m)])"
    using assms(2,4) e(1) nrl by (simp add: retryLoop_throw tryBody_resolved)
  have run: "callGPTWithRetry rt post m retries d =
      (Thrown e, backoffs (chatRequest rt m) retries 1 d (nat (k - 1)) @ [Call (chatRequest rt m)])"
    using callGPTWithRetry_after_backoffs
      [where post = post and rt = rt and m = m and d = d and k = k and retries = retries]
      assms(1,2,3)
    unfolding last by simp
  have "extractReply rt resp = Inl e \<and> response e = None \<and> \<not> rateLimited e
           \<and> callGPTWithRetry rt post m retries d =
               (Thrown e, backoffs (chatRequest rt m) retries 1 d (nat (k - 1)) @ [Call (chatRequest rt m)])
           \<and> calls (snd (callGPTWithRetry rt post m retries d)) = nat k
           \<and> waits (snd (callGPTWithRetry rt post m retries d)) = map (\<lambda>i. d * 2 ^ i) [0..<nat (k - 1)]"
    unfolding run snd_conv waits_after_backoffs calls_after_backoffs [OF assms(1)]
    using e nrl by simp
  then show ?thesis ..
qed

theorem C7_witness:
  "\<exists>e. response e = None
     \<and> callGPTWithRetry exampleRuntime rateLimitedThenEmptyChoices hello 3 1000 =
         (Thrown e, [Call (chatRequest exampleRuntime hello), Warn 1 3 1000, Sleep 1000,
                     Call (chatRequest exampleRuntime hello)])
     \<and> calls (snd (callGPTWithRetry exampleRuntime rateLimitedThenEmptyChoices hello 3 1000)) = 2
     \<and> waits (snd (callGPTWithRetry exampleRuntime rateLimitedThenEmptyChoices hello 3 1000)) = [1000]"
proof -
  have h1: "(1::int) \<le> 2" and h2: "(2::int) \<le> 3" by simp_all
  have h3: "\<forall>i. 1 \<le> i \<and> i < 2 \<longrightarrow>
      (\<exists>e. rateLimitedThenEmptyChoices i (chatRequest exampleRuntime hello) = Inl e \<and> rateLimited e)"
    by (simp add: rateLimitedThenEmptyChoices_def example_rate_limited)
  have h4: "rateLimitedThenEmptyChoices 2 (chatRequest exampleRuntime hello) =
      Inr \<lparr> status = 200, data = JObj [(lit ''choices'', JArr [])] \<rparr>"
    by (simp add: rateLimitedThenEmptyChoices_def emptyChoices_def)
  have h5: "malformed (data \<lparr> status = 200, data = JObj [(lit ''choices'', JArr [])] \<rparr>)"
    by (simp add: malformed_def)
  show ?thesis
    using C7_malformed_body_not_retried
      [where d = 1000 and post = rateLimitedThenEmptyChoices and rt = exampleRuntime and m = hello,
       OF h1 h2 h3 h4 h5]
    by (auto simp: eval_nat_numeral)
qed

text \<open>
  C5. At every step of an invocation with \<open>retries \<ge> 1\<close>: the attempt counter is
  between 1 and \<open>retries\<close> and bounds the number of upstream calls made; the delay is
  the initial delay doubled once per attempt before the current one; a rate-limit
  error on an attempt that is not the last leads through the timer wait to the next
  attempt with the delay doubled; after any other error, or an error on the last
  attempt, the invocation has ended with that error thrown and stays so, and an
  invocation that has ended takes no further step.
\<close>

theorem C5_retry_state_invariant:
  fixes rt post m retries d n
  defines "s \<equiv> (step rt post m retries ^^ n) (initial d)"
  defines "nxt \<equiv> step rt post m retries"
  assumes "1 \<le> retries"
  shows "1 \<le> attemptNo s \<and> attemptNo s \<le> retries
       \<and> int (calls (trace s)) \<le> attemptNo s
       \<and> currentDelay s = d * 2 ^ nat (attemptNo s - 1)
       \<and> (\<forall>e. control s = AwaitingPost \<and> tryBody rt post m (attemptNo s) = Inl e
              \<and> rateLimited e \<and> attemptNo s < retries \<longrightarrow>
              control (nxt s) = AwaitingTimer \<and> control (nxt (nxt s)) = AtLoopTest
              \<and> attemptNo (nxt (nxt s)) = attemptNo s + 1
              \<and> currentDelay (nxt (nxt s)) = 2 * currentDelay s)
       \<and> (\<forall>e. control s = AwaitingPost \<and> tryBody rt post m (attemptNo s) = Inl e
              \<and> (\<not> rateLimited e \<or> attemptNo s = retries) \<longrightarrow>
              (\<forall>j. (nxt ^^ Suc j) s = s\<lparr> control := Finished (Thrown e) \<rparr>))
       \<and> (\<forall>x. control s = Finished x \<longrightarrow> (\<forall>j. (nxt ^^ j) s = s))"
proof -
  have inv: "retryInvariant retries d s"
    unfolding s_def using assms(3) by (rule invariant_reachable)
  have bounds: "1 \<le> attemptNo s \<and> attemptNo s \<le> retries"
    using inv by (simp add: retryInvariant_def)
  have made: "int (calls (trace s)) \<le> attemptNo s"
    using inv by (simp add: retryInvariant_def split: if_splits)
  have doubled: "currentDelay s = d * 2 ^ nat (attemptNo s - 1)"
    using inv by (simp add: retryInvariant_def)
  have retry: "control (nxt s) = AwaitingTimer \<and> control (nxt (nxt s)) = AtLoopTest
      \<and> attemptNo (nxt (nxt s)) = attemptNo s + 1
      \<and> currentDelay (nxt (nxt s)) = 2 * currentDelay s"
    if "control s = AwaitingPost" "tryBody rt post m (attemptNo s) = Inl e"
      "rateLimited e" "attemptNo s < retries" for e
    unfolding nxt_def using step_retry [OF that] by simp
  have stop: "(nxt ^^ Suc j) s = s\<lparr> control := Finished (Thrown e) \<rparr>"
    if "control s = AwaitingPost" "tryBody rt post m (attemptNo s) = Inl e"
      "\<not> rateLimited e \<or> attemptNo s = retries" for e j
  proof -
    have "nxt s = s\<lparr> control := Finished (Thrown e) \<rparr>"
      unfolding nxt_def using that by (rule step_throw)
    moreover have "(nxt ^^ j) (s\<lparr> control := Finished (Thrown e) \<rparr>) =
        s\<lparr> control := Finished (Thrown e) \<rparr>"
      unfolding nxt_def by (rule funpow_step_finished) simp
    ultimately show ?thesis by (simp add: funpow_swap1)
  qed
  have rest: "(nxt ^^ j) s = s" if "control s = Finished x" for x j
    unfolding nxt_def using that by (rule funpow_step_finished)
  from bounds made doubled retry stop rest show ?thesis by blast
qed

theorem C5_witness:
  "control ((step exampleRuntime alwaysRateLimited hello 3 ^^ 1) (initial 1000)) = AwaitingPost
   \<and> currentDelay ((step exampleRuntime alwaysRateLimited hello 3 ^^ 1) (initial 1000)) = 1000
   \<and> currentDelay (step exampleRuntime alwaysRateLimited hello 3
        (step exampleRuntime alwaysRateLimited hello 3
          ((step exampleRuntime alwaysRateLimited hello 3 ^^ 1) (initial 1000)))) = 2000
   \<and> control ((step exampleRuntime alwaysRateLimited hello 3 ^^ 7) (initial 1000)) = AwaitingPost
   \<and> attemptNo ((step exampleRuntime alwaysRateLimited hello 3 ^^ 7) (initial 1000)) = 3
   \<and> control (step exampleRuntime alwaysRateLimited hello 3
        ((step exampleRuntime alwaysRateLimited hello 3 ^^ 7) (initial 1000))) =
       Finished (Thrown rateLimitError)"
proof -
  let ?f = "step exampleRuntime alwaysRateLimited hello 3"
  have c1: "control ((?f ^^ 1) (initial 1000)) = AwaitingPost"
    and a1: "attemptNo ((?f ^^ 1) (initial 1000)) = 1"
    and d1: "currentDelay ((?f ^^ 1) (initial 1000)) = 1000"
    by (simp_all add: step_def initial_def)
  have c7: "control ((?f ^^ 7) (initial 1000)) = AwaitingPost"
    and a7: "attemptNo ((?f ^^ 7) (initial 1000)) = 3"
    by (simp_all add: eval_nat_numeral step_def initial_def
        example_tryBody_rate_limited example_rate_limited)
  have "currentDelay (?f (?f ((?f ^^ 1) (initial 1000)))) = 2000"
    using C5_retry_state_invariant
      [where rt = exampleRuntime and post = alwaysRateLimited and m = hello
         and retries = 3 and d = 1000 and n = 1]
    unfolding c1 a1 d1 example_tryBody_rate_limited
    by (simp add: example_rate_limited)
  moreover have "control (?f ((?f ^^ 7) (initial 1000))) = Finished (Thrown rateLimitError)"
  proof -
    have "\<forall>j. (?f ^^ Suc j) ((?f ^^ 7) (initial 1000)) =
        ((?f ^^ 7) (initial 1000))\<lparr> control := Finished (Thrown rateLimitError) \<rparr>"
      using C5_retry_state_invariant
        [where rt = exampleRuntime and post = alwaysRateLimited and m = hello
           and retries = 3 and d = 1000 and n = 7]
      unfolding c7 a7 example_tryBody_rate_limited
      by simp
    then have "(?f ^^ Suc 0) ((?f ^^ 7) (initial 1000)) =
        ((?f ^^ 7) (initial 1000))\<lparr> control := Finished (Thrown rateLimitError) \<rparr>"
      by (rule spec)
    then show ?thesis by simp
  qed
  ultimately show ?thesis using c1 d1 c7 a7 by simp
qed

text \<open>
  C6. For every \<open>retries \<ge> 1\<close> the \<open>throw\<close> after the loop is never reached: neither
  the loop function nor any state of the state machine ends as \<open>Exhausted\<close>, no
  iteration entered with \<open>attempt \<le> retries\<close> does, and the iteration of the last
  attempt returns the reply or throws the error of its \<open>try\<close> block.
\<close>

theorem C6_fallback_unreachable:
  assumes "1 \<le> retries"
  shows "fst (callGPTWithRetry rt post m retries d) \<noteq> Exhausted
       \<and> (\<forall>n. control ((step rt post m retries ^^ n) (initial d)) \<noteq> Finished Exhausted)
       \<and> (\<forall>a d'. a \<le> retries \<longrightarrow> fst (retryLoop rt post m retries a d') \<noteq> Exhausted)
       \<and> (\<forall>d'. fst (retryLoop rt post m retries retries d') =
              (case tryBody rt post m retries of Inr v \<Rightarrow> Returned v | Inl e \<Rightarrow> Thrown e))"
proof -
  have a: "fst (callGPTWithRetry rt post m retries d) \<noteq> Exhausted"
    unfolding callGPTWithRetry_def using assms by (rule retryLoop_not_exhausted)
  have b: "control ((step rt post m retries ^^ n) (initial d)) \<noteq> Finished Exhausted" for n
    using invariant_reachable [OF assms, where d = d and rt = rt and post = post and m = m and n = n]
    by (simp add: retryInvariant_def)
  have c: "fst (retryLoop rt post m retries a d') \<noteq> Exhausted" if "a \<le> retries" for a d'
    using that by (rule retryLoop_not_exhausted)
  have e: "fst (retryLoop rt post m retries retries d') =
      (case tryBody rt post m retries of Inr v \<Rightarrow> Returned v | Inl e \<Rightarrow> Thrown e)" for d'
    by (cases "tryBody rt post m retries") (simp_all add: retryLoop_success retryLoop_throw)
  from a b c e show ?thesis by blast
qed

theorem C6_witness:
  "fst (callGPTWithRetry exampleRuntime alwaysRateLimited hello 3 1000) \<noteq> Exhausted
   \<and> fst (retryLoop exampleRuntime alwaysRateLimited hello 3 3 4000) = Thrown rateLimitError"
  using C6_fallback_unreachable
    [where rt = exampleRuntime and post = alwaysRateLimited and m = hello
       and retries = 3 and d = 1000]
  by (simp add: example_tryBody_rate_limited)

section \<open>Claims on concurrent invocations\<close>

text \<open>
  C9. Two invocations entered on one machine (one store, one console) and run
  interleaved under any schedule, each with its own arguments and upstream: the
  two get distinct frames; the attempt counter, the delay, the control point and
  the console part of each are at every moment what its own segments alone make
  of its initial state, whatever the other has done; an invocation that has ended
  has the result and the trace of \<open>callGPTWithRetry\<close> run alone on its arguments;
  and once each has had enough turns both have ended so.
\<close>

theorem C9_invocations_isolated:
  fixes rt a b sched m
  defines "final \<equiv> runShared rt a b sched (spawn m a b)"
  defines "resultA \<equiv> callGPTWithRetry rt (upstreamOf a) (messageOf a) (retriesOf a) (delayOf a)"
  defines "resultB \<equiv> callGPTWithRetry rt (upstreamOf b) (messageOf b) (retriesOf b) (delayOf b)"
  assumes "tagsAllocated m"
  shows "frameA (spawn m a b) \<noteq> frameB (spawn m a b)
       \<and> viewA final = (stepOf rt a ^^ length (filter id sched)) (initial (delayOf a))
       \<and> viewB final = (stepOf rt b ^^ length (filter Not sched)) (initial (delayOf b))
       \<and> (\<forall>x. control (viewA final) = Finished x \<longrightarrow> resultA = (x, trace (viewA final)))
       \<and> (\<forall>x. control (viewB final) = Finished x \<longrightarrow> resultB = (x, trace (viewB final)))
       \<and> (\<exists>n. \<forall>sched'. n \<le> length (filter id sched') \<and> n \<le> length (filter Not sched') \<longrightarrow>
              control (viewA (runShared rt a b sched' (spawn m a b))) = Finished (fst resultA)
            \<and> trace (viewA (runShared rt a b sched' (spawn m a b))) = snd resultA
            \<and> control (viewB (runShared rt a b sched' (spawn m a b))) = Finished (fst resultB)
            \<and> trace (viewB (runShared rt a b sched' (spawn m a b))) = snd resultB)"
proof -
  note start = spawn_views [OF assms(4), of a b]
  have views: "viewA (runShared rt a b sched' (spawn m a b)) =
        (stepOf rt a ^^ length (filter id sched')) (initial (delayOf a))"
      "viewB (runShared rt a b sched' (spawn m a b)) =
        (stepOf rt b ^^ length (filter Not sched')) (initial (delayOf b))" for sched'
    using runShared_views [OF start(1), of rt a b sched'] unfolding start(2,3) by simp_all
  have va: "viewA final = (stepOf rt a ^^ length (filter id sched)) (initial (delayOf a))"
    and vb: "viewB final = (stepOf rt b ^^ length (filter Not sched)) (initial (delayOf b))"
    unfolding final_def by (rule views)+
  have ra: "resultA = (x, trace (viewA final))" if "control (viewA final) = Finished x" for x
    using that unfolding va resultA_def stepOf_def by (rule finished_is_result)
  have rb: "resultB = (x, trace (viewB final))" if "control (viewB final) = Finished x" for x
    using that unfolding vb resultB_def stepOf_def by (rule finished_is_result)
  from result_stays [of rt "upstreamOf a" "messageOf a" "retriesOf a" "delayOf a"]
  obtain na where na: "\<forall>k\<ge>na. control ((stepOf rt a ^^ k) (initial (delayOf a))) = Finished (fst resultA)
      \<and> trace ((stepOf rt a ^^ k) (initial (delayOf a))) = snd resultA"
    unfolding resultA_def stepOf_def by blast
  from result_stays [of rt "upstreamOf b" "messageOf b" "retriesOf b" "delayOf b"]
  obtain nb where nb: "\<forall>k\<ge>nb. control ((stepOf rt b ^^ k) (initial (delayOf b))) = Finished (fst resultB)
      \<and> trace ((stepOf rt b ^^ k) (initial (delayOf b))) = snd resultB"
    unfolding resultB_def stepOf_def by blast
  have "\<forall>sched'. max na nb \<le> length (filter id sched') \<and> max na nb \<le> length (filter Not sched') \<longrightarrow>
      control (viewA (runShared rt a b sched' (spawn m a b))) = Finished (fst resultA)
    \<and> trace (viewA (runShared rt a b sched' (spawn m a b))) = snd resultA
    \<and> control (viewB (runShared rt a b sched' (spawn m a b))) = Finished (fst resultB)
    \<and> trace (viewB (runShared rt a b sched' (spawn m a b))) = snd resultB"
    unfolding views
  proof (intro allI impI)
    fix sched' :: "bool list"
    assume "max na nb \<le> length (filter id sched') \<and> max na nb \<le> length (filter Not sched')"
    then have "na \<le> length (filter id sched')" and "nb \<le> length (filter Not sched')"
      by simp_all
    with na nb show "control ((stepOf rt a ^^ length (filter id sched')) (initial (delayOf a))) =
          Finished (fst resultA)
        \<and> trace ((stepOf rt a ^^ length (filter id sched')) (initial (delayOf a))) = snd resultA
        \<and> control ((stepOf rt b ^^ length (filter Not sched')) (initial (delayOf b))) =
          Finished (fst resultB)
        \<and> trace ((stepOf rt b ^^ length (filter Not sched')) (initial (delayOf b))) = snd resultB"
      by blast
  qed
  then have progress: "\<exists>n. \<forall>sched'. n \<le> length (filter id sched') \<and> n \<le> length (filter Not sched') \<longrightarrow>
      control (viewA (runShared rt a b sched' (spawn m a b))) = Finished (fst resultA)
    \<and> trace (viewA (runShared rt a b sched' (spawn m a b))) = snd resultA
    \<and> control (viewB (runShared rt a b sched' (spawn m a b))) = Finished (fst resultB)
    \<and> trace (viewB (runShared rt a b sched' (spawn m a b))) = snd resultB"
    by (rule exI)
  show ?thesis
  proof (intro conjI allI impI)
    show "frameA (spawn m a b) \<noteq> frameB (spawn m a b)" by (fact start(1))
    show "viewA final = (stepOf rt a ^^ length (filter id sched)) (initial (delayOf a))"
      by (fact va)
    show "viewB final = (stepOf rt b ^^ length (filter Not sched)) (initial (delayOf b))"
      by (fact vb)
    show "resultA = (x, trace (viewA final))" if "control (viewA final) = Finished x" for x
      using that by (rule ra)
    show "resultB = (x, trace (viewB final))" if "control (viewB final) = Finished x" for x
      using that by (rule rb)
  qed (rule progress)
qed

theorem C9_witness:
  "tagsAllocated bootMachine
   \<and> callGPTWithRetry exampleRuntime alwaysSucceeds hello 3 1000 =
     (Returned (lit ''hi there''),
      trace (viewA (runShared exampleRuntime succeeding exhausting exampleSchedule
                      (spawn bootMachine succeeding exhausting))))
   \<and> callGPTWithRetry exampleRuntime alwaysRateLimited hello 3 1000 =
     (Thrown rateLimitError,
      trace (viewB (runShared exampleRuntime succeeding exhausting exampleSchedule
                      (spawn bootMachine succeeding exhausting))))
   \<and> attemptNo (viewA (runShared exampleRuntime succeeding exhausting exampleSchedule
                      (spawn bootMachine succeeding exhausting))) = 1
   \<and> currentDelay (viewA (runShared exampleRuntime succeeding exhausting exampleSchedule
                      (spawn bootMachine succeeding exhausting))) = 1000
   \<and> attemptNo (viewB (runShared exampleRuntime succeeding exhausting exampleSchedule
                      (spawn bootMachine succeeding exhausting))) = 3
   \<and> currentDelay (viewB (runShared exampleRuntime succeeding exhausting exampleSchedule
                      (spawn bootMachine succeeding exhausting))) = 4000"
proof -
  let ?final = "runShared exampleRuntime succeeding exhausting exampleSchedule
      (spawn bootMachine succeeding exhausting)"
  have a: "upstreamOf succeeding = alwaysSucceeds" "messageOf succeeding = hello"
      "retriesOf succeeding = 3" "delayOf succeeding = 1000"
    and b: "upstreamOf exhausting = alwaysRateLimited" "messageOf exhausting = hello"
      "retriesOf exhausting = 3" "delayOf exhausting = 1000"
    by (simp_all add: succeeding_def exhausting_def)
  have boot: "tagsAllocated bootMachine"
    by (simp add: tagsAllocated_def bootMachine_def)
  note isolated = C9_invocations_isolated
    [where rt = exampleRuntime and a = succeeding and b = exhausting
       and sched = exampleSchedule and m = bootMachine,
     OF boot, unfolded a b example_solo_runs]
  note va = isolated [THEN conjunct2, THEN conjunct1]
  note vb = isolated [THEN conjunct2, THEN conjunct2, THEN conjunct1]
  have ca: "control (viewA ?final) = Finished (Returned (lit ''hi there''))"
    and cb: "control (viewB ?final) = Finished (Thrown rateLimitError)"
    unfolding va vb by simp_all
  have ra: "callGPTWithRetry exampleRuntime alwaysSucceeds hello 3 1000 =
      (Returned (lit ''hi there''), trace (viewA ?final))"
    using isolated [THEN conjunct2, THEN conjunct2, THEN conjunct2, THEN conjunct1,
        rule_format, OF ca] .
  have rb: "callGPTWithRetry exampleRuntime alwaysRateLimited hello 3 1000 =
      (Thrown rateLimitError, trace (viewB ?final))"
    using isolated [THEN conjunct2, THEN conjunct2, THEN conjunct2, THEN conjunct2,
        THEN conjunct1, rule_format, OF cb] .
  have na: "attemptNo (viewA ?final) = 1" and da: "currentDelay (viewA ?final) = 1000"
    and nb: "attemptNo (viewB ?final) = 3" and db: "currentDelay (viewB ?final) = 4000"
    unfolding va vb by simp_all
  show ?thesis by (intro conjI) (fact boot, fact ra, fact rb, fact na, fact da, fact nb, fact db)
qed

section \<open>Claims on the handler\<close>

text \<open>
  C8. For a request body whose \<open>message\<close> is absent or the empty string the handler
  answers with status 400 and the reply \<open>No message provided.\<close>, and nothing is sent
  upstream; \<open>callGPTWithRetry\<close> was not invoked, since every invocation of it by the
  handler makes at least one upstream call.
\<close>

theorem C8_missing_message_rejected:
  assumes "body = JObj fs"
    and "map_of fs (lit ''message'') = None \<or> map_of fs (lit ''message'') = Some (JStr [])"
  shows "chatHandler rt post body =
           Inr (\<lparr> statusCode = 400, reply = lit ''No message provided.'' \<rparr>, [])
       \<and> calls [] = 0
       \<and> (\<forall>userMessage. 0 < calls (snd (callGPTWithRetry rt post userMessage 3 1000)))"
proof -
  have "chatHandler rt post body =
      Inr (\<lparr> statusCode = 400, reply = lit ''No message provided.'' \<rparr>, [])"
    using assms by (auto simp: chatHandler_def)
  moreover have "0 < calls (snd (callGPTWithRetry rt post userMessage 3 1000))" for userMessage
    by (rule calls_callGPTWithRetry) simp
  ultimately show ?thesis by simp
qed

theorem C8_witness:
  "chatHandler exampleRuntime alwaysSucceeds (JObj [(lit ''message'', JStr [])]) =
     Inr (\<lparr> statusCode = 400, reply = lit ''No message provided.'' \<rparr>, [])
   \<and> chatHandler exampleRuntime alwaysSucceeds (JObj []) =
     Inr (\<lparr> statusCode = 400, reply = lit ''No message provided.'' \<rparr>, [])"
proof -
  have e: "map_of [(lit ''message'', JStr [])] (lit ''message'') = None \<or>
      map_of [(lit ''message'', JStr [])] (lit ''message'') = Some (JStr [])"
    by simp
  have a: "map_of ([] :: (jsstring \<times> jsval) list) (lit ''message'') = None \<or>
      map_of ([] :: (jsstring \<times> jsval) list) (lit ''message'') = Some (JStr [])"
    by simp
  show ?thesis
    using C8_missing_message_rejected [OF refl e, of exampleRuntime alwaysSucceeds]
      C8_missing_message_rejected [OF refl a, of exampleRuntime alwaysSucceeds]
    by simp
qed

text \<open>
  C10. The handler rejects every falsy \<open>message\<close>, not only an absent or empty one:
  the falsy values are \<open>undefined\<close>, \<open>null\<close>, \<open>false\<close>, \<open>0\<close> and the empty string, and
  for a request body whose \<open>message\<close> is falsy, so also for \<open>false\<close>, \<open>0\<close> and \<open>null\<close>,
  the handler answers with status 400 and the reply \<open>No message provided.\<close>, and
  nothing is sent upstream.
\<close>

theorem C10_falsy_message_rejected:
  assumes "body = JObj fs"
    and "map_of fs (lit ''message'') = Some v"
    and "\<not> truthy v"
  shows "chatHandler rt post body =
           Inr (\<lparr> statusCode = 400, reply = lit ''No message provided.'' \<rparr>, [])
       \<and> (v = JUndefined \<or> v = JNull \<or> v = JBool False \<or> v = JNum 0 \<or> v = JStr [])
       \<and> \<not> truthy (JBool False) \<and> \<not> truthy (JNum 0) \<and> \<not> truthy JNull
       \<and> (\<forall>userMessage. 0 < calls (snd (callGPTWithRetry rt post userMessage 3 1000)))"
proof -
  have "chatHandler rt post body =
      Inr (\<lparr> statusCode = 400, reply = lit ''No message provided.'' \<rparr>, [])"
    using assms by (simp add: chatHandler_def)
  moreover have "v = JUndefined \<or> v = JNull \<or> v = JBool False \<or> v = JNum 0 \<or> v = JStr []"
    using assms(3) by (cases v) simp_all
  moreover have "0 < calls (snd (callGPTWithRetry rt post userMessage 3 1000))" for userMessage
    by (rule calls_callGPTWithRetry) simp
  ultimately show ?thesis by simp
qed

theorem C10_witness:
  "chatHandler exampleRuntime alwaysSucceeds (JObj [(lit ''message'', JNum 0)]) =
     Inr (\<lparr> statusCode = 400, reply = lit ''No message provided.'' \<rparr>, [])
   \<and> chatHandler exampleRuntime alwaysSucceeds (JObj [(lit ''message'', JBool False)]) =
     Inr (\<lparr> statusCode = 400, reply = lit ''No message provided.'' \<rparr>, [])
   \<and> chatHandler exampleRuntime alwaysSucceeds (JObj [(lit ''message'', JNull)]) =
     Inr (\<lparr> statusCode = 400, reply = lit ''No message provided.'' \<rparr>, [])"
proof -
  have m: "map_of [(lit ''message'', v)] (lit ''message'') = Some v" for v :: jsval
    by simp
  have zero: "\<not> truthy (JNum 0)" and false: "\<not> truthy (JBool False)"
    and null: "\<not> truthy JNull"
    by simp_all
  show ?thesis
    using C10_falsy_message_rejected [OF refl m zero, of exampleRuntime alwaysSucceeds]
      C10_falsy_message_rejected [OF refl m false, of exampleRuntime alwaysSucceeds]
      C10_falsy_message_rejected [OF refl m null, of exampleRuntime alwaysSucceeds]
    by simp
qed

end
